theory Spec2Isabelle
  imports Main "HOL-Library.Word"
begin

section \<open>The graph loader of \<open>src/galaxy/service/graphLoader.js\<close>\<close>

text \<open>
  \<open>loadGraph\<close> downloads four files (manifest.json, positions.bin, links.bin, labels.json)
  one after the other and decodes them into the variables of its closure. The development
  follows the source function by function. JavaScript values are modelled as follows:
  \<^item> an \<open>ArrayBuffer\<close> is a list of bytes, an \<open>Int32Array\<close> a list of 32-bit words, and
    reading an element gives the number \<open>sint w\<close>;
  \<^item> a number that is an index or an identifier is an \<open>int\<close> (all of them stay far below
    \<open>2 ^ 53\<close>, where JavaScript numbers are exact);
  \<^item> \<open>undefined\<close> is \<open>None\<close>;
  \<^item> a sparse array such as \<open>outLinks\<close> is a map from its keys to its entries, a missing
    entry (a hole, read as \<open>undefined\<close>) is \<open>None\<close>; a key that is not an array index,
    such as \<open>-1\<close>, is an ordinary property of the array object and lives in the same map;
  \<^item> the arrays stored in \<open>outLinks\<close> are objects shared with the local variable
    \<open>lastArray\<close>, so they live in a store and are named by references;
  \<^item> a thrown exception or a rejected promise is \<open>Inl\<close> of an \<open>error\<close>.
\<close>

subsection \<open>Errors and typed arrays\<close>

datatype error = RangeError | TypeError | Rejected string

type_synonym byte = "8 word"
type_synonym int32 = "32 word"

text \<open>
  The element of an \<open>Int32Array\<close> held in four consecutive bytes, least significant byte first
  (typed arrays use the byte order of the platform, little-endian on every platform the
  application runs on).
\<close>

definition int32_of_bytes :: "byte \<Rightarrow> byte \<Rightarrow> byte \<Rightarrow> byte \<Rightarrow> int32" where
  "int32_of_bytes b0 b1 b2 b3 =
     word_of_nat (unat b0 + 256 * unat b1 + 65536 * unat b2 + 16777216 * unat b3)"

fun int32_elements :: "byte list \<Rightarrow> int32 list" where
  "int32_elements (b0 # b1 # b2 # b3 # bs) = int32_of_bytes b0 b1 b2 b3 # int32_elements bs"
| "int32_elements bs = []"

text \<open>
  \<open>new Int32Array(buffer)\<close>: a view of the whole buffer; the constructor throws a
  \<open>RangeError\<close> when the byte length of the buffer is not a multiple of 4.
\<close>

definition Int32Array :: "byte list \<Rightarrow> error + int32 list" where
  "Int32Array buffer =
     (if length buffer mod 4 = 0 then Inr (int32_elements buffer) else Inl RangeError)"

text \<open>
  The four bytes that hold an element, and the buffer that holds a sequence of elements:
  every sequence of 32-bit elements is the view of this buffer.
\<close>

definition bytes_of_int32 :: "int32 \<Rightarrow> byte list" where
  "bytes_of_int32 w =
     [ucast w, ucast (drop_bit 8 w), ucast (drop_bit 16 w), ucast (drop_bit 24 w)]"

definition buffer_of :: "int32 list \<Rightarrow> byte list" where
  "buffer_of view = concat (map bytes_of_int32 view)"

subsection \<open>The state of \<open>loadGraph\<close>\<close>

text \<open>
  The adjacency data of the closure: \<open>outLinks\<close> maps a node id to the reference of its
  array of targets, \<open>arrays\<close> gives the contents of every array created so far by an array
  literal \<open>[]\<close> of \<open>setLinks\<close>, and \<open>nextRef\<close> is the first unused reference. The arrays of
  \<open>inLinks\<close> are reachable through \<open>inLinks\<close> only and are kept by value; their elements are
  values of \<open>srcIndex\<close>, which is \<open>undefined\<close> until the first negative element is read.
\<close>

type_synonym ref = nat

record adjacency =
  arrays :: "ref \<Rightarrow> int list"
  nextRef :: ref
  outLinks :: "int \<rightharpoonup> ref"
  inLinks :: "int \<rightharpoonup> int option list"

text \<open>\<open>var outLinks = []; var inLinks = [];\<close> at the start of \<open>loadGraph\<close>.\<close>

definition noLinks :: adjacency where
  "noLinks = \<lparr>arrays = (\<lambda>r. []), nextRef = 0, outLinks = Map.empty, inLinks = Map.empty\<rparr>"

text \<open>What a reader of the decoded data sees: \<open>outLinks[k]\<close> as an array of numbers.\<close>

definition outLinksOf :: "'a adjacency_scheme \<Rightarrow> int \<rightharpoonup> int list" where
  "outLinksOf a = (\<lambda>k. map_option (arrays a) (outLinks a k))"

text \<open>
  The manifest document \<open>{last: string, all: array of strings}\<close>; either property may be
  missing. A response that is \<open>null\<close> is \<open>None\<close> of \<open>manifest option\<close>.
\<close>

record manifest =
  manifest_last :: "string option"
  manifest_all :: "string list option"

text \<open>
  What the loader does to the modules around it, in order of occurrence: the requests it
  issues, the version it stores with \<open>appConfig.setManifestVersion\<close>, the events it fires on
  \<open>appEvents\<close>.
\<close>

datatype event = PositionsDownloaded | LinksDownloaded | LabelsDownloaded

datatype action = Request string | SetManifestVersion "string option" | Fire event

text \<open>The variables of the closure of \<open>loadGraph\<close>, and the actions performed so far.\<close>

record loader =
  galaxyEndpoint :: string
  manifest :: "manifest option"
  positions :: "int32 list option"
  labels :: "string list option"
  linkData :: adjacency
  trace :: "action list"

definition start :: "string \<Rightarrow> loader" where
  "start endpoint =
     \<lparr>galaxyEndpoint = endpoint, manifest = None, positions = None, labels = None,
      linkData = noLinks, trace = []\<rparr>"

text \<open>
  The modules \<open>loadGraph\<close> imports are not part of the source file and are parameters:
  \<open>config.dataUrl\<close>, the decimal rendering of \<open>+new Date()\<close>, the two getters of \<open>appConfig\<close>,
  \<open>request\<close> (one function for each kind of document it is asked for, from the URL to the
  value the promise is fulfilled with or the error it is rejected with) and \<open>createGraph\<close>.
  The progress callback handed to \<open>request\<close> has no effect on the variables of the closure
  and is left out.

  The value of \<open>appConfig.getScaleFactor()\<close> is a JavaScript number, an integer or not. The
  loader uses it in one place, \<open>positions[i] *= scaleFactor\<close> on an \<open>Int32Array\<close>, which
  multiplies two doubles and stores the product converted to a 32-bit integer. The scale
  factor is read once, before the loop, so what is stored is a function of the element
  alone; the parameter \<open>timesScaleFactor\<close> is that function, for whatever number the scale
  factor is.
\<close>

record 'g modules =
  dataUrl :: string
  now :: string
  getManifestVersion :: "string option"
  timesScaleFactor :: "int32 \<Rightarrow> int32"
  requestManifest :: "string \<Rightarrow> error + manifest option"
  requestBuffer :: "string \<Rightarrow> error + byte list"
  requestLabels :: "string \<Rightarrow> error + string list"
  createGraph :: "int32 list option \<Rightarrow> string list option \<Rightarrow> adjacency \<Rightarrow> 'g"

subsection \<open>Promises\<close>

text \<open>
  A promise of the chain in \<open>loadGraph\<close> runs on the closure and is fulfilled with a value or
  rejected with an error. \<open>p.then(f)\<close> runs \<open>f\<close> on the value of \<open>p\<close> when \<open>p\<close> is fulfilled;
  when \<open>p\<close> is rejected, \<open>f\<close> is not called and the result is rejected with the same error.
  An exception thrown by \<open>f\<close> rejects the result as well.
\<close>

type_synonym 'a promise = "loader \<Rightarrow> (error + 'a) \<times> loader"

definition then_promise :: "'a promise \<Rightarrow> ('a \<Rightarrow> 'b promise) \<Rightarrow> 'b promise" where
  "then_promise p f s =
     (case p s of
        (Inl e, s') \<Rightarrow> (Inl e, s')
      | (Inr x, s') \<Rightarrow> f x s')"

definition request :: "(string \<Rightarrow> error + 'a) \<Rightarrow> string \<Rightarrow> 'a promise" where
  "request fetch url s = (fetch url, s\<lparr>trace := trace s @ [Request url]\<rparr>)"

subsection \<open>\<open>getFromAppConfig\<close> and \<open>setManifest\<close>: the version of the graph\<close>

text \<open>A string or \<open>undefined\<close> in a condition: \<open>undefined\<close> and the empty string are falsy.\<close>

definition truthy :: "string option \<Rightarrow> bool" where
  "truthy x = (case x of None \<Rightarrow> False | Some v \<Rightarrow> v \<noteq> [])"

text \<open>
  \<open>appConfigVersion\<close> is the value of \<open>appConfig.getManifestVersion()\<close>. The function returns
  \<open>undefined\<close> unless the manifest has a list \<open>all\<close>, the version is truthy and
  \<open>all.indexOf(version) >= 0\<close>.
\<close>

definition getFromAppConfig :: "string option \<Rightarrow> manifest option \<Rightarrow> string option" where
  "getFromAppConfig appConfigVersion response =
     (case (case response of None \<Rightarrow> None | Some m \<Rightarrow> manifest_all m) of
        None \<Rightarrow> None
      | Some approvedVersions \<Rightarrow>
          if \<not> truthy appConfigVersion then None
          else (case appConfigVersion of
                  None \<Rightarrow> None
                | Some v \<Rightarrow> if v \<in> set approvedVersions then appConfigVersion else None))"

text \<open>Line 67 for a manifest that is an object: \<open>getFromAppConfig(manifest) || manifest.last\<close>.\<close>

definition version :: "string option \<Rightarrow> manifest \<Rightarrow> string option" where
  "version appConfigVersion m =
     (if truthy (getFromAppConfig appConfigVersion (Some m))
      then getFromAppConfig appConfigVersion (Some m)
      else manifest_last m)"

text \<open>String concatenation with a value that may be \<open>undefined\<close>.\<close>

definition toString :: "string option \<Rightarrow> string" where
  "toString x = (case x of None \<Rightarrow> ''undefined'' | Some v \<Rightarrow> v)"

text \<open>
  \<open>setManifest\<close>. On a \<open>null\<close> response \<open>getFromAppConfig\<close> returns \<open>undefined\<close> and reading
  \<open>manifest.last\<close> throws a \<open>TypeError\<close>.
\<close>

definition setManifest :: "string option \<Rightarrow> manifest option \<Rightarrow> unit promise" where
  "setManifest appConfigVersion response s =
     (case response of
        None \<Rightarrow> (Inl TypeError, s\<lparr>manifest := response\<rparr>)
      | Some m \<Rightarrow>
          (Inr (),
           s\<lparr>manifest := response,
             galaxyEndpoint := galaxyEndpoint s @ ''/'' @ toString (version appConfigVersion m),
             trace := trace s @ [SetManifestVersion (version appConfigVersion m)]\<rparr>))"

definition loadManifest :: "'g modules \<Rightarrow> unit promise" where
  "loadManifest env s =
     then_promise
       (request (requestManifest env) (galaxyEndpoint s @ ''/manifest.json?nocache='' @ now env))
       (setManifest (getManifestVersion env)) s"

subsection \<open>\<open>setPositions\<close>: decoding positions.bin\<close>

text \<open>
  Every element of the view, in order, is multiplied by the scale factor and stored back
  (\<open>scale\<close> is the function of the element that this computes). There is no other check
  than the one of \<open>Int32Array\<close>.
\<close>

definition setPositions :: "(int32 \<Rightarrow> int32) \<Rightarrow> byte list \<Rightarrow> unit promise" where
  "setPositions scale buffer s =
     (case Int32Array buffer of
        Inl e \<Rightarrow> (Inl e, s)
      | Inr view \<Rightarrow>
          (Inr (),
           s\<lparr>positions := Some (map scale view),
             trace := trace s @ [Fire PositionsDownloaded]\<rparr>))"

text \<open>
  The function of an integer scale factor \<open>k\<close> of magnitude at most \<open>2 ^ 21\<close>: the product
  with an element is an integer below \<open>2 ^ 53\<close> in magnitude, which the multiplication of
  doubles computes exactly, and storing it keeps its low 32 bits. It is used under that
  bound only.
\<close>

definition integerFactor :: "int \<Rightarrow> int32 \<Rightarrow> int32" where
  "integerFactor k p = word_of_int (sint p * k)"

definition loadPositions :: "'g modules \<Rightarrow> unit promise" where
  "loadPositions env s =
     then_promise (request (requestBuffer env) (galaxyEndpoint s @ ''/positions.bin''))
       (setPositions (timesScaleFactor env)) s"

subsection \<open>\<open>setLinks\<close>: decoding links.bin\<close>

text \<open>The state of the loop adds the two local variables of \<open>setLinks\<close>.\<close>

record decoder = adjacency +
  lastArray :: ref
  srcIndex :: "int option"

text \<open>
  The body of the \<open>for\<close> loop for the element \<open>v = links[i]\<close>. A negative element makes a new
  empty array, stores it at \<open>outLinks[srcIndex]\<close> and in \<open>lastArray\<close>. Any other element
  pushes \<open>toNode\<close> on the array \<open>lastArray\<close> refers to, and \<open>srcIndex\<close> on \<open>inLinks[toNode]\<close>,
  which is created when it is \<open>undefined\<close>.
\<close>

definition setLinks_body :: "int32 \<Rightarrow> decoder \<Rightarrow> decoder" where
  "setLinks_body v d =
     (if sint v < 0 then
        d\<lparr>arrays := (arrays d)(nextRef d := []),
          nextRef := nextRef d + 1,
          outLinks := (outLinks d)(- sint v - 1 \<mapsto> nextRef d),
          lastArray := nextRef d,
          srcIndex := Some (- sint v - 1)\<rparr>
      else
        d\<lparr>arrays := (arrays d)(lastArray d := arrays d (lastArray d) @ [sint v - 1]),
          inLinks := (inLinks d)(sint v - 1 \<mapsto>
            (case inLinks d (sint v - 1) of
               None \<Rightarrow> [srcIndex d]
             | Some srcs \<Rightarrow> srcs @ [srcIndex d]))\<rparr>)"

fun setLinks_loop :: "int32 list \<Rightarrow> decoder \<Rightarrow> decoder" where
  "setLinks_loop [] d = d"
| "setLinks_loop (v # links) d = setLinks_loop links (setLinks_body v d)"

text \<open>
  Lines 110 to 126, once \<open>links\<close> is bound: \<open>var lastArray = []; outLinks[0] = lastArray;\<close>
  and the loop. The result is the adjacency data the closure holds afterwards.
\<close>

definition setLinks_start :: "adjacency \<Rightarrow> decoder" where
  "setLinks_start a =
     \<lparr>arrays = (arrays a)(nextRef a := []),
      nextRef = nextRef a + 1,
      outLinks = (outLinks a)(0 \<mapsto> nextRef a),
      inLinks = inLinks a,
      lastArray = nextRef a,
      srcIndex = None\<rparr>"

definition setLinks_links :: "int32 list \<Rightarrow> adjacency \<Rightarrow> adjacency" where
  "setLinks_links links a = adjacency.truncate (setLinks_loop links (setLinks_start a))"

definition setLinks :: "byte list \<Rightarrow> unit promise" where
  "setLinks buffer s =
     (case Int32Array buffer of
        Inl e \<Rightarrow> (Inl e, s)
      | Inr view \<Rightarrow>
          (Inr (),
           s\<lparr>linkData := setLinks_links view (linkData s),
             trace := trace s @ [Fire LinksDownloaded]\<rparr>))"

definition loadLinks :: "'g modules \<Rightarrow> unit promise" where
  "loadLinks env s =
     then_promise (request (requestBuffer env) (galaxyEndpoint s @ ''/links.bin'')) setLinks s"

subsection \<open>\<open>setLabels\<close>, \<open>convertToGraph\<close> and \<open>loadGraph\<close>\<close>

definition setLabels :: "string list \<Rightarrow> unit promise" where
  "setLabels data s = (Inr (), s\<lparr>labels := Some data, trace := trace s @ [Fire LabelsDownloaded]\<rparr>)"

definition loadLabels :: "'g modules \<Rightarrow> unit promise" where
  "loadLabels env s =
     then_promise (request (requestLabels env) (galaxyEndpoint s @ ''/labels.json'')) setLabels s"

definition convertToGraph :: "'g modules \<Rightarrow> 'g promise" where
  "convertToGraph env s = (Inr (createGraph env (positions s) (labels s) (linkData s)), s)"

text \<open>
  \<open>loadManifest().then(loadPositions).then(loadLinks).then(loadLabels).then(convertToGraph)\<close>,
  started on the closure in which \<open>galaxyEndpoint = config.dataUrl + name\<close>.
\<close>

definition loadGraph :: "'g modules \<Rightarrow> string \<Rightarrow> (error + 'g) \<times> loader" where
  "loadGraph env name =
     then_promise
       (then_promise
          (then_promise
             (then_promise (loadManifest env) (\<lambda>_. loadPositions env))
             (\<lambda>_. loadLinks env))
          (\<lambda>_. loadLabels env))
       (\<lambda>_. convertToGraph env)
       (start (dataUrl env @ name))"

subsection \<open>Notions used to state properties of the decoder\<close>

text \<open>
  The sources declared by the negative elements of a stream and the targets named by the
  other elements, both in stream order.
\<close>

definition declared :: "int32 list \<Rightarrow> int list" where
  "declared links = map (\<lambda>v. - sint v - 1) (filter (\<lambda>v. sint v < 0) links)"

definition targets :: "int32 list \<Rightarrow> int list" where
  "targets links = map (\<lambda>v. sint v - 1) (filter (\<lambda>v. \<not> sint v < 0) links)"

text \<open>
  The key of \<open>outLinks\<close> under which the array of \<open>lastArray\<close> is stored: 0 after line 111,
  \<open>srcIndex\<close> after line 116. \<open>shared\<close> states this aliasing: \<open>lastArray\<close> and
  \<open>outLinks[lastKey]\<close> are the same object, no other entry of \<open>outLinks\<close> is that object, and
  every reference in use is below \<open>nextRef\<close>.
\<close>

definition lastKey :: "decoder \<Rightarrow> int" where
  "lastKey d = (case srcIndex d of None \<Rightarrow> 0 | Some s \<Rightarrow> s)"

definition shared :: "decoder \<Rightarrow> bool" where
  "shared d \<longleftrightarrow>
     outLinks d (lastKey d) = Some (lastArray d) \<and>
     (\<forall>k r. outLinks d k = Some r \<longrightarrow> r < nextRef d) \<and>
     (\<forall>k. outLinks d k = Some (lastArray d) \<longrightarrow> k = lastKey d)"

text \<open>
  The arrays read with a missing entry as the empty array, and the number of times node \<open>t\<close>
  occurs in \<open>outLinks[s]\<close> and node \<open>s\<close> occurs in \<open>inLinks[t]\<close>.
\<close>

definition targetsOf :: "'a adjacency_scheme \<Rightarrow> int \<Rightarrow> int list" where
  "targetsOf a s = (case outLinksOf a s of None \<Rightarrow> [] | Some ts \<Rightarrow> ts)"

definition sourcesOf :: "'a adjacency_scheme \<Rightarrow> int \<Rightarrow> int option list" where
  "sourcesOf a t = (case inLinks a t of None \<Rightarrow> [] | Some srcs \<Rightarrow> srcs)"

definition occursOut :: "'a adjacency_scheme \<Rightarrow> int \<Rightarrow> int \<Rightarrow> nat" where
  "occursOut a s t = count_list (targetsOf a s) t"

definition occursIn :: "'a adjacency_scheme \<Rightarrow> int \<Rightarrow> int \<Rightarrow> nat" where
  "occursIn a s t = count_list (sourcesOf a t) (Some s)"

text \<open>
  The number of entries in the lists of \<open>outLinks\<close>, all lists together. The sources that
  have a list are the keys of \<open>outLinks\<close>, \<open>dom (outLinksOf a)\<close>.
\<close>

definition entries :: "'a adjacency_scheme \<Rightarrow> nat" where
  "entries a = (\<Sum>s\<in>dom (outLinksOf a). length (targetsOf a s))"

text \<open>
  The encoding of links.bin: a sequence of pairs of a source and its targets becomes, pair
  after pair, the element \<open>-(source + 1)\<close> followed by \<open>target + 1\<close> for every target.
  \<open>nodeIds\<close> holds when the identifiers are not negative and their elements fit in 32 bits.
  \<open>edges\<close> lists the edges of the stream in the order the decoder meets them, and
  \<open>sourcesOfEdgesInto\<close> the sources of the edges that end in a node, in that order.
\<close>

definition sourceToken :: "int \<Rightarrow> int32" where
  "sourceToken s = word_of_int (- (s + 1))"

definition targetToken :: "int \<Rightarrow> int32" where
  "targetToken t = word_of_int (t + 1)"

definition encodeLinks :: "(int \<times> int list) list \<Rightarrow> int32 list" where
  "encodeLinks pairs = concat (map (\<lambda>(s, ts). sourceToken s # map targetToken ts) pairs)"

definition nodeIds :: "(int \<times> int list) list \<Rightarrow> bool" where
  "nodeIds pairs =
     list_all (\<lambda>(s, ts). 0 \<le> s \<and> s < 2147483648 \<and>
       list_all (\<lambda>t. 0 \<le> t \<and> t < 2147483647) ts) pairs"

definition edges :: "(int \<times> int list) list \<Rightarrow> (int \<times> int) list" where
  "edges pairs = concat (map (\<lambda>(s, ts). map (\<lambda>t. (s, t)) ts) pairs)"

definition sourcesOfEdgesInto :: "(int \<times> int list) list \<Rightarrow> int \<Rightarrow> int list" where
  "sourcesOfEdgesInto pairs t = map fst (filter (\<lambda>e. snd e = t) (edges pairs))"

text \<open>Pushing a list of elements on an entry that is created when it is missing.\<close>

fun pushAll :: "'a list option \<Rightarrow> 'a list \<Rightarrow> 'a list option" where
  "pushAll m [] = m"
| "pushAll None xs = Some xs"
| "pushAll (Some ys) xs = Some (ys @ xs)"

subsection \<open>Notions used to state properties of the chain of promises\<close>

text \<open>
  The URL of the manifest and the value of \<open>galaxyEndpoint\<close> once \<open>setManifest\<close> has run on the
  manifest \<open>m\<close>; the result of a run of \<open>loadGraph\<close> and the actions it has performed.
\<close>

definition manifestUrl :: "'g modules \<Rightarrow> string \<Rightarrow> string" where
  "manifestUrl env name = dataUrl env @ name @ ''/manifest.json?nocache='' @ now env"

definition endpoint :: "'g modules \<Rightarrow> string \<Rightarrow> manifest \<Rightarrow> string" where
  "endpoint env name m =
     dataUrl env @ name @ ''/'' @ toString (version (getManifestVersion env) m)"

definition outcome :: "'g modules \<Rightarrow> string \<Rightarrow> error + 'g" where
  "outcome env name = fst (loadGraph env name)"

definition actions :: "'g modules \<Rightarrow> string \<Rightarrow> action list" where
  "actions env name = trace (snd (loadGraph env name))"

text \<open>
  The steps that have succeeded: the manifest is fetched and is the object \<open>m\<close>; moreover
  positions.bin is fetched and has a view; moreover links.bin is fetched and has a view.
\<close>

definition manifestLoaded :: "'g modules \<Rightarrow> string \<Rightarrow> manifest \<Rightarrow> bool" where
  "manifestLoaded env name m \<longleftrightarrow> requestManifest env (manifestUrl env name) = Inr (Some m)"

definition positionsLoaded :: "'g modules \<Rightarrow> string \<Rightarrow> manifest \<Rightarrow> bool" where
  "positionsLoaded env name m \<longleftrightarrow>
     manifestLoaded env name m \<and>
     (case requestBuffer env (endpoint env name m @ ''/positions.bin'') of
        Inl e \<Rightarrow> False
      | Inr buffer \<Rightarrow> length buffer mod 4 = 0)"

definition linksLoaded :: "'g modules \<Rightarrow> string \<Rightarrow> manifest \<Rightarrow> bool" where
  "linksLoaded env name m \<longleftrightarrow>
     positionsLoaded env name m \<and>
     (case requestBuffer env (endpoint env name m @ ''/links.bin'') of
        Inl e \<Rightarrow> False
      | Inr buffer \<Rightarrow> length buffer mod 4 = 0)"

text \<open>
  The actions of a run up to and including the request of the manifest, of positions.bin,
  of links.bin and of labels.json.
\<close>

definition uptoManifest :: "'g modules \<Rightarrow> string \<Rightarrow> action list" where
  "uptoManifest env name = [Request (manifestUrl env name)]"

definition uptoPositions :: "'g modules \<Rightarrow> string \<Rightarrow> manifest \<Rightarrow> action list" where
  "uptoPositions env name m =
     [Request (manifestUrl env name), SetManifestVersion (version (getManifestVersion env) m),
      Request (endpoint env name m @ ''/positions.bin'')]"

definition uptoLinks :: "'g modules \<Rightarrow> string \<Rightarrow> manifest \<Rightarrow> action list" where
  "uptoLinks env name m =
     uptoPositions env name m @
     [Fire PositionsDownloaded, Request (endpoint env name m @ ''/links.bin'')]"

definition uptoLabels :: "'g modules \<Rightarrow> string \<Rightarrow> manifest \<Rightarrow> action list" where
  "uptoLabels env name m =
     uptoLinks env name m @
     [Fire LinksDownloaded, Request (endpoint env name m @ ''/labels.json'')]"

text \<open>
  An example of the surrounding modules: a server that answers the four requests with the
  given results, no pinned version, scale factor 1 (every element is stored unchanged).
\<close>

definition exampleManifest :: manifest where
  "exampleManifest = \<lparr>manifest_last = Some ''v1'', manifest_all = None\<rparr>"

definition exampleModules ::
  "(error + manifest option) \<Rightarrow> (error + byte list) \<Rightarrow> (error + byte list) \<Rightarrow>
   (error + string list) \<Rightarrow> unit modules" where
  "exampleModules manifestJson positionsBin linksBin labelsJson =
     \<lparr>dataUrl = ''data/'', now = ''0'', getManifestVersion = None,
      timesScaleFactor = integerFactor 1,
      requestManifest = (\<lambda>url. manifestJson),
      requestBuffer =
        (\<lambda>url. if url = ''data/g/v1/positions.bin'' then positionsBin else linksBin),
      requestLabels = (\<lambda>url. labelsJson),
      createGraph = (\<lambda>ps ls a. ())\<rparr>"

section \<open>Buffers and their views\<close>

lemma digits256:
  fixes u :: nat
  assumes "u < 4294967296"
  shows "u mod 256 + 256 * (u div 256 mod 256) + 65536 * (u div 65536 mod 256)
     + 16777216 * (u div 16777216 mod 256) = u"
proof -
  define a where "a = u div 256"
  define b where "b = a div 256"
  define c where "c = b div 256"
  have b: "u div 65536 = b"
    using div_mult2_eq [of u 256 256] by (simp add: a_def b_def)
  have c: "u div 16777216 = c"
    using div_mult2_eq [of u 65536 256] b by (simp add: c_def)
  have "c < 256" using assms unfolding c [symmetric] by simp
  then have c256: "c mod 256 = c" by simp
  have 1: "u = u mod 256 + 256 * a" by (simp add: a_def)
  have 2: "a = a mod 256 + 256 * b" by (simp add: b_def)
  have 3: "b = b mod 256 + 256 * c" by (simp add: c_def)
  show ?thesis
    unfolding b c c256 a_def [symmetric] using 1 2 3 by linarith
qed

lemma int32_of_bytes_of_int32:
  "int32_of_bytes (ucast w) (ucast (drop_bit 8 w)) (ucast (drop_bit 16 w))
     (ucast (drop_bit 24 w)) = w"
proof -
  have u: "unat w < 4294967296" using unsigned_less [of w, where ?'a = nat] by simp
  have b0: "unat (ucast w :: byte) = unat w mod 256"
    by (simp add: unsigned_ucast_eq take_bit_eq_mod)
  have b1: "unat (ucast (drop_bit 8 w) :: byte) = unat w div 256 mod 256"
    by (simp only: unsigned_ucast_eq unat_drop_bit_eq) (simp add: take_bit_eq_mod drop_bit_eq_div)
  have b2: "unat (ucast (drop_bit 16 w) :: byte) = unat w div 65536 mod 256"
    by (simp only: unsigned_ucast_eq unat_drop_bit_eq) (simp add: take_bit_eq_mod drop_bit_eq_div)
  have b3: "unat (ucast (drop_bit 24 w) :: byte) = unat w div 16777216 mod 256"
    by (simp only: unsigned_ucast_eq unat_drop_bit_eq) (simp add: take_bit_eq_mod drop_bit_eq_div)
  show ?thesis
    unfolding int32_of_bytes_def b0 b1 b2 b3 digits256 [OF u] by simp
qed

text \<open>Every sequence of elements is the view of a buffer.\<close>

lemma Int32Array_buffer_of: "Int32Array (buffer_of view) = Inr view"
proof -
  have "length (buffer_of view) = 4 * length view"
    by (induction view) (simp_all add: buffer_of_def bytes_of_int32_def)
  moreover have "int32_elements (buffer_of view) = view"
    by (induction view) (simp_all add: buffer_of_def bytes_of_int32_def int32_of_bytes_of_int32)
  ultimately show ?thesis by (simp add: Int32Array_def)
qed

text \<open>So \<open>setLinks\<close> on the buffer of a stream is \<open>setLinks_links\<close> on the stream.\<close>

lemma setLinks_buffer_of:
  "setLinks (buffer_of view) st =
     (Inr (), st\<lparr>linkData := setLinks_links view (linkData st),
                trace := trace st @ [Fire LinksDownloaded]\<rparr>)"
  by (simp add: setLinks_def Int32Array_buffer_of)

text \<open>
  In a run of \<open>loadGraph\<close> the closure holds no links when \<open>setLinks\<close> starts, so the decoded
  data of a stream \<open>view\<close> is \<open>setLinks_links view noLinks\<close>; the properties of the decoder
  below are stated for it.
\<close>

lemma setLinks_from_start:
  "linkData (snd (setLinks (buffer_of view) (start url))) = setLinks_links view noLinks"
  by (simp add: setLinks_buffer_of start_def)

section \<open>Properties of the loop of \<open>setLinks\<close>\<close>

lemmas decode_defs = setLinks_links_def setLinks_start_def noLinks_def setLinks_body_def
  outLinksOf_def adjacency.truncate_def

lemma setLinks_loop_append:
  "setLinks_loop (xs @ ys) d = setLinks_loop ys (setLinks_loop xs d)"
  by (induction xs arbitrary: d) simp_all

lemma body_negative:
  "sint v < 0 \<Longrightarrow> setLinks_body v d =
     d\<lparr>arrays := (arrays d)(nextRef d := []),
       nextRef := nextRef d + 1,
       outLinks := (outLinks d)(- sint v - 1 \<mapsto> nextRef d),
       lastArray := nextRef d,
       srcIndex := Some (- sint v - 1)\<rparr>"
  by (simp add: setLinks_body_def)

lemma body_edge:
  "\<not> sint v < 0 \<Longrightarrow> setLinks_body v d =
     d\<lparr>arrays := (arrays d)(lastArray d := arrays d (lastArray d) @ [sint v - 1]),
       inLinks := (inLinks d)(sint v - 1 \<mapsto>
            (case inLinks d (sint v - 1) of
               None \<Rightarrow> [srcIndex d]
             | Some srcs \<Rightarrow> srcs @ [srcIndex d]))\<rparr>"
  by (simp add: setLinks_body_def)

lemma srcIndex_body:
  "srcIndex (setLinks_body v d) = (if sint v < 0 then Some (- sint v - 1) else srcIndex d)"
  by (simp add: setLinks_body_def)

lemma inLinks_body:
  "inLinks (setLinks_body v d) =
    (if sint v < 0 then inLinks d
     else (inLinks d)(sint v - 1 \<mapsto>
            (case inLinks d (sint v - 1) of
               None \<Rightarrow> [srcIndex d]
             | Some srcs \<Rightarrow> srcs @ [srcIndex d])))"
  by (simp add: setLinks_body_def)

lemma outLinksOf_truncate: "outLinksOf (adjacency.truncate d) = outLinksOf d"
  by (simp add: outLinksOf_def adjacency.truncate_def)

lemma inLinks_truncate: "inLinks (adjacency.truncate d) = inLinks d"
  by (simp add: adjacency.truncate_def)

subsection \<open>The keys of the two arrays\<close>

lemma dom_outLinksOf: "dom (outLinksOf a) = dom (outLinks a)"
  by (auto simp: outLinksOf_def dom_def)

lemma dom_outLinks_body:
  "dom (outLinks (setLinks_body v d)) =
     dom (outLinks d) \<union> (if sint v < 0 then {- sint v - 1} else {})"
  by (simp add: setLinks_body_def)

lemma dom_inLinks_body:
  "dom (inLinks (setLinks_body v d)) =
     dom (inLinks d) \<union> (if sint v < 0 then {} else {sint v - 1})"
  by (simp add: setLinks_body_def)

lemma dom_outLinks_loop:
  "dom (outLinks (setLinks_loop links d)) =
     dom (outLinks d) \<union> {- sint v - 1 |v. v \<in> set links \<and> sint v < 0}"
  by (induction links arbitrary: d) (auto simp: dom_outLinks_body split: if_splits)

lemma dom_inLinks_loop:
  "dom (inLinks (setLinks_loop links d)) =
     dom (inLinks d) \<union> {sint v - 1 |v. v \<in> set links \<and> \<not> sint v < 0}"
  by (induction links arbitrary: d) (auto simp: dom_inLinks_body split: if_splits)

lemma dom_outLinksOf_links:
  "dom (outLinksOf (setLinks_links links noLinks)) = insert 0 (set (declared links))"
  by (auto simp: setLinks_links_def outLinksOf_truncate dom_outLinksOf dom_outLinks_loop
      setLinks_start_def noLinks_def declared_def)

lemma dom_inLinks_links:
  "dom (inLinks (setLinks_links links noLinks)) = set (targets links)"
  by (auto simp: setLinks_links_def inLinks_truncate dom_inLinks_loop
      setLinks_start_def noLinks_def targets_def)

subsection \<open>The aliasing of \<open>lastArray\<close> and \<open>outLinks\<close>\<close>

lemma shared_start:
  "\<forall>k r. outLinks a k = Some r \<longrightarrow> r < nextRef a \<Longrightarrow> shared (setLinks_start a)"
  by (auto simp: shared_def setLinks_start_def lastKey_def less_Suc_eq)

lemma shared_body: "shared d \<Longrightarrow> shared (setLinks_body v d)"
  by (cases "sint v < 0") (auto simp: shared_def body_negative body_edge lastKey_def less_Suc_eq)

lemma shared_loop: "shared d \<Longrightarrow> shared (setLinks_loop links d)"
  by (induction links arbitrary: d) (simp_all add: shared_body)

lemma outLinksOf_negative:
  assumes "shared d" and "sint v < 0"
  shows "outLinksOf (setLinks_body v d) = (outLinksOf d)(- sint v - 1 \<mapsto> [])"
proof (rule ext)
  fix k
  show "outLinksOf (setLinks_body v d) k = ((outLinksOf d)(- sint v - 1 \<mapsto> [])) k"
  proof (cases "k = - sint v - 1")
    case True
    then show ?thesis using assms(2) by (simp add: body_negative outLinksOf_def)
  next
    case False
    have "r \<noteq> nextRef d" if "outLinks d k = Some r" for r
      using assms(1) that unfolding shared_def by fastforce
    then show ?thesis using False assms(2)
      by (cases "outLinks d k") (simp_all add: body_negative outLinksOf_def)
  qed
qed

lemma outLinksOf_edge:
  assumes "shared d" and "\<not> sint v < 0"
  shows "outLinksOf (setLinks_body v d) =
     (outLinksOf d)(lastKey d \<mapsto> the (outLinksOf d (lastKey d)) @ [sint v - 1])"
proof (rule ext)
  fix k
  have last: "outLinks d (lastKey d) = Some (lastArray d)"
    using assms(1) by (simp add: shared_def)
  show "outLinksOf (setLinks_body v d) k =
    ((outLinksOf d)(lastKey d \<mapsto> the (outLinksOf d (lastKey d)) @ [sint v - 1])) k"
  proof (cases "k = lastKey d")
    case True
    then show ?thesis using assms(2) last by (simp add: body_edge outLinksOf_def)
  next
    case False
    have "r \<noteq> lastArray d" if "outLinks d k = Some r" for r
      using assms(1) that False unfolding shared_def by blast
    then show ?thesis using False assms(2)
      by (cases "outLinks d k") (simp_all add: body_edge outLinksOf_def)
  qed
qed

lemma declared_Cons:
  "declared (v # links) = (if sint v < 0 then (- sint v - 1) # declared links else declared links)"
  by (simp add: declared_def)

lemma shared_start_noLinks: "shared (setLinks_start noLinks)"
  by (rule shared_start) (simp add: noLinks_def)

lemma inLinks_head_kept:
  "inLinks d k = Some (x # srcs) \<Longrightarrow> \<exists>srcs'. inLinks (setLinks_loop links d) k = Some (x # srcs')"
proof (induction links arbitrary: d srcs)
  case Nil
  then show ?case by simp
next
  case (Cons v links)
  have "\<exists>srcs'. inLinks (setLinks_body v d) k = Some (x # srcs')"
    using Cons.prems by (auto simp: inLinks_body)
  then show ?case using Cons.IH by auto
qed

subsection \<open>Occurrences in \<open>outLinks\<close> and in \<open>inLinks\<close>\<close>

lemmas occurs_defs = occursOut_def occursIn_def targetsOf_def sourcesOf_def

lemma occursIn_body:
  "occursIn (setLinks_body v d) s t =
     occursIn d s t + (if \<not> sint v < 0 \<and> t = sint v - 1 \<and> srcIndex d = Some s then 1 else 0)"
  by (auto simp: occursIn_def sourcesOf_def inLinks_body split: option.splits)

lemma occursOut_body:
  assumes "shared d"
  shows "occursOut (setLinks_body v d) s t =
     (if sint v < 0 then (if s = - sint v - 1 then 0 else occursOut d s t)
      else occursOut d s t + (if s = lastKey d \<and> t = sint v - 1 then 1 else 0))"
proof (cases "sint v < 0")
  case True
  then show ?thesis
    by (simp add: occursOut_def targetsOf_def outLinksOf_negative [OF assms])
next
  case False
  have "outLinksOf d (lastKey d) \<noteq> None"
    using assms by (simp add: shared_def outLinksOf_def)
  then show ?thesis using False
    by (auto simp: occursOut_def targetsOf_def outLinksOf_edge [OF assms])
qed

lemma lastKey_body:
  "lastKey (setLinks_body v d) = (if sint v < 0 then - sint v - 1 else lastKey d)"
  by (simp add: lastKey_def srcIndex_body)

lemma occurs_truncate:
  "occursOut (adjacency.truncate d) = occursOut d" "occursIn (adjacency.truncate d) = occursIn d"
  by (simp_all add: occurs_defs outLinksOf_truncate inLinks_truncate fun_eq_iff)

lemma occurs_start:
  "occursOut (setLinks_start noLinks) s t = 0" "occursIn (setLinks_start noLinks) s t = 0"
  by (simp_all add: occurs_defs outLinksOf_def setLinks_start_def noLinks_def)

text \<open>
  The invariant of a stream without a repeated declaration: the occurrences agree, and a
  source that is still to be declared is neither the active one nor recorded in \<open>inLinks\<close>.
\<close>

lemma consistent_loop:
  assumes "shared d" and "srcIndex d \<noteq> None"
    and "\<forall>s t. occursOut d s t = occursIn d s t"
    and "distinct (declared links)"
    and "\<forall>s\<in>set (declared links). s \<noteq> lastKey d \<and> (\<forall>t. occursIn d s t = 0)"
  shows "occursOut (setLinks_loop links d) s t = occursIn (setLinks_loop links d) s t"
  using assms
proof (induction links arbitrary: d)
  case Nil
  then show ?case by simp
next
  case (Cons v links)
  let ?d = "setLinks_body v d"
  have key: "srcIndex d = Some (lastKey d)"
    using Cons.prems(2) by (auto simp: lastKey_def)
  have 1: "shared ?d" using Cons.prems(1) by (rule shared_body)
  have 2: "srcIndex ?d \<noteq> None" using Cons.prems(2) by (simp add: srcIndex_body)
  have 3: "\<forall>s t. occursOut ?d s t = occursIn ?d s t"
    using Cons.prems(3,5) key
    by (auto simp: occursOut_body [OF Cons.prems(1)] occursIn_body declared_Cons)
  have 4: "distinct (declared links)"
    using Cons.prems(4) by (simp add: declared_Cons split: if_splits)
  have 5: "\<forall>s\<in>set (declared links). s \<noteq> lastKey ?d \<and> (\<forall>t. occursIn ?d s t = 0)"
    using Cons.prems(4,5) key
    by (auto simp: occursIn_body lastKey_body declared_Cons split: if_splits)
  show ?case using Cons.IH [OF 1 2 3 4 5] by simp
qed

lemma consistent_links:
  assumes "links \<noteq> []" and "sint (hd links) < 0" and "distinct (declared links)"
  shows "occursOut (setLinks_links links noLinks) s t = occursIn (setLinks_links links noLinks) s t"
proof -
  obtain v rest where links: "links = v # rest" using assms(1) by (cases links) auto
  let ?d = "setLinks_body v (setLinks_start noLinks)"
  have neg: "sint v < 0" using assms(2) links by simp
  have 1: "shared ?d" by (rule shared_body [OF shared_start_noLinks])
  have 2: "srcIndex ?d \<noteq> None" using neg by (simp add: srcIndex_body)
  have 3: "\<forall>s t. occursOut ?d s t = occursIn ?d s t"
    using neg by (simp add: occursOut_body [OF shared_start_noLinks] occursIn_body occurs_start)
  have 4: "distinct (declared rest)"
    using assms(3) links neg by (simp add: declared_Cons)
  have 5: "\<forall>s\<in>set (declared rest). s \<noteq> lastKey ?d \<and> (\<forall>t. occursIn ?d s t = 0)"
    using assms(3) links neg by (auto simp: declared_Cons lastKey_body occursIn_body occurs_start)
  show ?thesis
    using consistent_loop [OF 1 2 3 4 5] links by (simp add: setLinks_links_def occurs_truncate)
qed

lemma redeclare:
  assumes "sint v < 0"
  shows "outLinksOf (setLinks_links (links @ [v]) noLinks) (- sint v - 1) = Some [] \<and>
         inLinks (setLinks_links (links @ [v]) noLinks) = inLinks (setLinks_links links noLinks)"
proof -
  have "shared (setLinks_loop links (setLinks_start noLinks))"
    by (rule shared_loop [OF shared_start_noLinks])
  then show ?thesis using assms
    by (simp add: setLinks_links_def setLinks_loop_append outLinksOf_truncate inLinks_truncate
        outLinksOf_negative inLinks_body)
qed

subsection \<open>Counting the entries of \<open>outLinks\<close>\<close>

text \<open>Writing one list of \<open>outLinks\<close> changes the number of entries by the change of that list.\<close>

lemma entries_upd:
  assumes fin: "finite (dom (outLinksOf d))"
    and upd: "outLinksOf d' = (outLinksOf d)(k \<mapsto> v)"
  shows "entries d' + length (targetsOf d k) = entries d + length v"
proof -
  let ?A = "dom (outLinksOf d) - {k}"
  let ?rest = "\<Sum>s\<in>?A. length (targetsOf d s)"
  have finA: "finite ?A" using fin by simp
  have same: "targetsOf d' s = targetsOf d s" if "s \<in> ?A" for s
    using that by (simp add: targetsOf_def upd)
  have "dom (outLinksOf d') = insert k (dom (outLinksOf d))" by (auto simp: upd)
  then have "entries d' = length (targetsOf d' k) + (\<Sum>s\<in>?A. length (targetsOf d' s))"
    using fin by (simp add: entries_def sum.insert_remove)
  also have "\<dots> = length v + ?rest"
    using same by (simp add: targetsOf_def upd)
  finally have new: "entries d' = length v + ?rest" .
  have old: "entries d = length (targetsOf d k) + ?rest"
  proof (cases "k \<in> dom (outLinksOf d)")
    case True
    then have "insert k (dom (outLinksOf d)) = dom (outLinksOf d)" by auto
    then show ?thesis
      using sum.insert_remove [OF fin, of "\<lambda>s. length (targetsOf d s)" k]
      by (simp add: entries_def)
  next
    case False
    then have "?A = dom (outLinksOf d)" "targetsOf d k = []"
      by (auto simp: targetsOf_def split: option.splits)
    then show ?thesis by (simp add: entries_def)
  qed
  show ?thesis using new old by simp
qed

lemma finite_dom_body:
  "finite (dom (outLinksOf d)) \<Longrightarrow> finite (dom (outLinksOf (setLinks_body v d)))"
  by (simp add: dom_outLinksOf dom_outLinks_body)

lemma targetsOf_lastKey:
  "shared d \<Longrightarrow> outLinksOf d (lastKey d) = Some (targetsOf d (lastKey d))"
  by (auto simp: shared_def outLinksOf_def targetsOf_def)

lemma entries_body:
  assumes "shared d" and "finite (dom (outLinksOf d))"
  shows "entries (setLinks_body v d) + (if sint v < 0 then length (targetsOf d (- sint v - 1)) else 0)
     = entries d + (if sint v < 0 then 0 else 1)"
proof (cases "sint v < 0")
  case True
  from entries_upd [OF assms(2) outLinksOf_negative [OF assms(1) True]] True
  show ?thesis by simp
next
  case False
  have "outLinksOf (setLinks_body v d)
      = (outLinksOf d)(lastKey d \<mapsto> targetsOf d (lastKey d) @ [sint v - 1])"
    using outLinksOf_edge [OF assms(1) False] targetsOf_lastKey [OF assms(1)] by simp
  from entries_upd [OF assms(2) this] False show ?thesis by simp
qed

lemma entries_loop_le:
  assumes "shared d" and "finite (dom (outLinksOf d))"
  shows "entries (setLinks_loop links d) \<le> entries d + length (targets links)"
  using assms
proof (induction links arbitrary: d)
  case Nil
  then show ?case by (simp add: targets_def)
next
  case (Cons v links)
  have "entries (setLinks_body v d) \<le> entries d + (if sint v < 0 then 0 else 1)"
    using entries_body [OF Cons.prems, of v] by simp
  moreover have "entries (setLinks_loop links (setLinks_body v d))
      \<le> entries (setLinks_body v d) + length (targets links)"
    using Cons.IH [OF shared_body [OF Cons.prems(1)] finite_dom_body [OF Cons.prems(2)]] .
  ultimately show ?case by (cases "sint v < 0") (simp_all add: targets_def)
qed


lemma targetsOf_start: "targetsOf (setLinks_start noLinks) s = []"
  by (simp add: targetsOf_def outLinksOf_def setLinks_start_def noLinks_def)

lemma targetsOf_body_other:
  assumes "shared d" and "s \<noteq> lastKey d" and "sint v < 0 \<longrightarrow> s \<noteq> - sint v - 1"
  shows "targetsOf (setLinks_body v d) s = targetsOf d s"
proof (cases "sint v < 0")
  case True
  then show ?thesis using assms(3) by (simp add: targetsOf_def outLinksOf_negative [OF assms(1)])
next
  case False
  then show ?thesis using assms(2) by (simp add: targetsOf_def outLinksOf_edge [OF assms(1)])
qed

text \<open>
  When every source is declared at most once and a source still to be declared has an empty
  list, no declaration replaces a list that holds targets, and nothing is lost.
\<close>

lemma entries_loop_eq:
  assumes "shared d" and "finite (dom (outLinksOf d))"
    and "distinct (declared links)"
    and "\<forall>s\<in>set (declared links). s \<noteq> lastKey d \<and> targetsOf d s = []"
  shows "entries (setLinks_loop links d) = entries d + length (targets links)"
  using assms
proof (induction links arbitrary: d)
  case Nil
  then show ?case by (simp add: targets_def)
next
  case (Cons v links)
  let ?d = "setLinks_body v d"
  have 1: "shared ?d" using Cons.prems(1) by (rule shared_body)
  have 2: "finite (dom (outLinksOf ?d))" using Cons.prems(2) by (rule finite_dom_body)
  have 3: "distinct (declared links)"
    using Cons.prems(3) by (simp add: declared_Cons split: if_splits)
  have 4: "\<forall>s\<in>set (declared links). s \<noteq> lastKey ?d \<and> targetsOf ?d s = []"
  proof
    fix s assume s: "s \<in> set (declared links)"
    then have old: "s \<noteq> lastKey d" "targetsOf d s = []"
      using Cons.prems(4) by (auto simp: declared_Cons split: if_splits)
    have new: "sint v < 0 \<longrightarrow> s \<noteq> - sint v - 1"
      using Cons.prems(3) s by (auto simp: declared_Cons)
    show "s \<noteq> lastKey ?d \<and> targetsOf ?d s = []"
      using old new targetsOf_body_other [OF Cons.prems(1) old(1) new]
      by (simp add: lastKey_body)
  qed
  have step: "entries ?d = entries d + (if sint v < 0 then 0 else 1)"
  proof (cases "sint v < 0")
    case True
    then have "targetsOf d (- sint v - 1) = []"
      using Cons.prems(4) by (simp add: declared_Cons)
    then show ?thesis using entries_body [OF Cons.prems(1,2), of v] True by simp
  next
    case False
    then show ?thesis using entries_body [OF Cons.prems(1,2), of v] by simp
  qed
  show ?case using Cons.IH [OF 1 2 3 4] step
    by (cases "sint v < 0") (simp_all add: targets_def)
qed

lemma finite_dom_start: "finite (dom (outLinksOf (setLinks_start noLinks)))"
  by (simp add: dom_outLinksOf setLinks_start_def noLinks_def)

lemma entries_start: "entries (setLinks_start noLinks) = 0"
  by (simp add: entries_def targetsOf_start)

lemma entries_truncate: "entries (adjacency.truncate d) = entries d"
  by (simp add: entries_def targetsOf_def outLinksOf_truncate)

lemma entries_le: "entries (setLinks_links links noLinks) \<le> length (targets links)"
  using entries_loop_le [OF shared_start_noLinks finite_dom_start, of links]
  by (simp add: setLinks_links_def entries_truncate entries_start)

lemma entries_eq:
  assumes "links \<noteq> []" and "sint (hd links) < 0" and "distinct (declared links)"
  shows "entries (setLinks_links links noLinks) = length (targets links)"
proof -
  obtain v rest where links: "links = v # rest" using assms(1) by (cases links) auto
  let ?init = "setLinks_start noLinks"
  let ?d = "setLinks_body v ?init"
  have neg: "sint v < 0" using assms(2) links by simp
  have 1: "shared ?d" by (rule shared_body [OF shared_start_noLinks])
  have 2: "finite (dom (outLinksOf ?d))" by (rule finite_dom_body [OF finite_dom_start])
  have 3: "distinct (declared rest)" using assms(3) links neg by (simp add: declared_Cons)
  have "outLinksOf ?init = [0 \<mapsto> []]"
    by (simp add: setLinks_start_def noLinks_def outLinksOf_def fun_eq_iff)
  then have "outLinksOf ?d = [0 \<mapsto> [], - sint v - 1 \<mapsto> []]"
    using outLinksOf_negative [OF shared_start_noLinks neg] by simp
  then have empty: "targetsOf ?d s = []" for s
    by (simp add: targetsOf_def)
  have 4: "\<forall>s\<in>set (declared rest). s \<noteq> lastKey ?d \<and> targetsOf ?d s = []"
    using assms(3) links neg by (auto simp: declared_Cons lastKey_body empty)
  have "entries ?d = 0" by (simp add: entries_def empty)
  then show ?thesis
    using entries_loop_eq [OF 1 2 3 4] links neg
    by (simp add: setLinks_links_def entries_truncate targets_def)
qed

lemma card_dom_le: "card (dom (outLinksOf (setLinks_links links noLinks))) \<le> length (declared links) + 1"
proof -
  have "card (insert 0 (set (declared links))) \<le> Suc (card (set (declared links)))"
    by (simp add: card_insert_if)
  also have "\<dots> \<le> Suc (length (declared links))" by (simp add: card_length)
  finally show ?thesis by (simp add: dom_outLinksOf_links)
qed

lemma card_dom_eq:
  "distinct (declared links) \<Longrightarrow>
   card (dom (outLinksOf (setLinks_links links noLinks)))
     = length (declared links) + (if 0 \<in> set (declared links) then 0 else 1)"
  by (simp add: dom_outLinksOf_links card_insert_if distinct_card insert_absorb)

subsection \<open>Decoding an encoded sequence of pairs\<close>

lemmas encode_defs = encodeLinks_def sourceToken_def targetToken_def nodeIds_def
  sourcesOfEdgesInto_def edges_def

lemma pushAll_append: "pushAll (pushAll m xs) ys = pushAll m (xs @ ys)"
  by (cases m; cases xs; cases ys) simp_all

lemma sint_word_of_int32:
  "- 2147483648 \<le> k \<Longrightarrow> k < 2147483648 \<Longrightarrow> sint (word_of_int k :: int32) = k"
  unfolding sint_sbintrunc' by (rule signed_take_bit_int_eq_self) simp_all

lemma sint_source_token:
  "0 \<le> s \<Longrightarrow> s < 2147483648 \<Longrightarrow> sint (sourceToken s) = - (s + 1)"
  unfolding sourceToken_def by (rule sint_word_of_int32) simp_all

lemma sint_target_token:
  "0 \<le> t \<Longrightarrow> t < 2147483647 \<Longrightarrow> sint (targetToken t) = t + 1"
  unfolding targetToken_def by (rule sint_word_of_int32) simp_all

lemma sources_one_pair:
  "map fst (filter (\<lambda>e. snd e = t) (map (\<lambda>t. (s, t)) ts)) = replicate (count_list ts t) s"
  by (induction ts) simp_all

lemma sourcesOfEdgesInto_Cons:
  "sourcesOfEdgesInto ((s, ts) # pairs) t
     = replicate (count_list ts t) s @ sourcesOfEdgesInto pairs t"
  by (simp add: sourcesOfEdgesInto_def edges_def sources_one_pair)

text \<open>A run of targets of the active source \<open>s\<close>.\<close>

lemma targets_pushed:
  assumes "shared d" and "srcIndex d = Some s" and "list_all (\<lambda>t. 0 \<le> t \<and> t < 2147483647) ts"
  shows "shared (setLinks_loop (map targetToken ts) d) \<and>
     srcIndex (setLinks_loop (map targetToken ts) d) = Some s \<and>
     outLinksOf (setLinks_loop (map targetToken ts) d)
       = (outLinksOf d)(s \<mapsto> the (outLinksOf d s) @ ts) \<and>
     (\<forall>t. inLinks (setLinks_loop (map targetToken ts) d) t
       = pushAll (inLinks d t) (replicate (count_list ts t) (Some s)))"
  using assms
proof (induction ts arbitrary: d)
  case Nil
  have "outLinksOf d s \<noteq> None"
    using Nil.prems(1,2) by (simp add: shared_def lastKey_def outLinksOf_def)
  then show ?case using Nil.prems by (auto simp: fun_eq_iff)
next
  case (Cons t ts)
  let ?v = "targetToken t"
  let ?d = "setLinks_body ?v d"
  have v: "sint ?v = t + 1" using Cons.prems(3) by (simp add: sint_target_token)
  then have edge: "\<not> sint ?v < 0" using Cons.prems(3) by simp
  have key: "lastKey d = s" using Cons.prems(2) by (simp add: lastKey_def)
  have 1: "shared ?d" using Cons.prems(1) by (rule shared_body)
  have 2: "srcIndex ?d = Some s" using Cons.prems(2) edge by (simp add: srcIndex_body)
  have 3: "list_all (\<lambda>t. 0 \<le> t \<and> t < 2147483647) ts" using Cons.prems(3) by simp
  have out: "outLinksOf ?d = (outLinksOf d)(s \<mapsto> the (outLinksOf d s) @ [t])"
    using outLinksOf_edge [OF Cons.prems(1) edge] key v by simp
  have inl: "inLinks ?d = (inLinks d)(t \<mapsto> (case inLinks d t of None \<Rightarrow> [Some s]
      | Some srcs \<Rightarrow> srcs @ [Some s]))"
    using edge v Cons.prems(2) by (simp add: inLinks_body split: option.splits)
  have "inLinks ?d t' = pushAll (inLinks d t') (if t' = t then [Some s] else [])" for t'
    by (simp add: inl split: option.splits)
  then have push: "pushAll (inLinks ?d t') (replicate (count_list ts t') (Some s))
      = pushAll (inLinks d t') (replicate (count_list (t # ts) t') (Some s))" for t'
    by (simp add: pushAll_append)
  have upd: "(outLinksOf ?d)(s \<mapsto> the (outLinksOf ?d s) @ ts)
      = (outLinksOf d)(s \<mapsto> the (outLinksOf d s) @ t # ts)"
    by (simp add: out)
  show ?case using Cons.IH [OF 1 2 3]
    by (simp only: list.map setLinks_loop.simps push upd simp_thms)
qed

lemma pairs_decoded:
  assumes "shared d" and "nodeIds pairs"
  shows "outLinksOf (setLinks_loop (encodeLinks pairs) d) = outLinksOf d ++ map_of (rev pairs) \<and>
     (\<forall>t. inLinks (setLinks_loop (encodeLinks pairs) d) t
        = pushAll (inLinks d t) (map Some (sourcesOfEdgesInto pairs t)))"
  using assms
proof (induction pairs arbitrary: d)
  case Nil
  then show ?case by (simp add: encodeLinks_def sourcesOfEdgesInto_def edges_def)
next
  case (Cons p pairs)
  obtain s ts where p: "p = (s, ts)" by (cases p)
  let ?d1 = "setLinks_body (sourceToken s) d"
  let ?d2 = "setLinks_loop (map targetToken ts) ?d1"
  have ids: "0 \<le> s" "s < 2147483648" "list_all (\<lambda>t. 0 \<le> t \<and> t < 2147483647) ts"
    "nodeIds pairs"
    using Cons.prems(2) p by (simp_all add: nodeIds_def)
  have v: "sint (sourceToken s) = - (s + 1)" using ids by (simp add: sint_source_token)
  then have neg: "sint (sourceToken s) < 0" using ids by simp
  have sh1: "shared ?d1" using Cons.prems(1) by (rule shared_body)
  have src1: "srcIndex ?d1 = Some s" using neg v by (simp add: srcIndex_body)
  have out1: "outLinksOf ?d1 = (outLinksOf d)(s \<mapsto> [])"
    using outLinksOf_negative [OF Cons.prems(1) neg] v by simp
  have in1: "inLinks ?d1 = inLinks d" using neg by (simp add: inLinks_body)
  note run = targets_pushed [OF sh1 src1 ids(3)]
  have sh2: "shared ?d2" using run by blast
  have out2: "outLinksOf ?d2 = (outLinksOf d)(s \<mapsto> ts)" using run by (simp add: out1)
  have in2: "inLinks ?d2 t = pushAll (inLinks d t) (replicate (count_list ts t) (Some s))" for t
    using run by (simp add: in1)
  have enc: "setLinks_loop (encodeLinks (p # pairs)) d = setLinks_loop (encodeLinks pairs) ?d2"
    by (simp add: encodeLinks_def p setLinks_loop_append)
  have "outLinksOf d ++ map_of (rev (p # pairs)) = (outLinksOf d)(s \<mapsto> ts) ++ map_of (rev pairs)"
    by (simp add: p)
  moreover have "pushAll (inLinks ?d2 t) (map Some (sourcesOfEdgesInto pairs t))
      = pushAll (inLinks d t) (map Some (sourcesOfEdgesInto (p # pairs) t))" for t
    by (simp add: in2 pushAll_append p sourcesOfEdgesInto_Cons)
  ultimately show ?case using Cons.IH [OF sh2 ids(4)] by (simp only: enc out2 simp_thms)
qed

lemma links_of_pairs:
  assumes "nodeIds pairs"
  shows "outLinksOf (setLinks_links (encodeLinks pairs) noLinks) = [0 \<mapsto> []] ++ map_of (rev pairs)"
    and "inLinks (setLinks_links (encodeLinks pairs) noLinks) t
      = (if sourcesOfEdgesInto pairs t = [] then None
         else Some (map Some (sourcesOfEdgesInto pairs t)))"
proof -
  note dec = pairs_decoded [OF shared_start_noLinks assms]
  have "outLinksOf (setLinks_start noLinks) = [0 \<mapsto> []]"
    by (simp add: setLinks_start_def noLinks_def outLinksOf_def fun_eq_iff)
  then show "outLinksOf (setLinks_links (encodeLinks pairs) noLinks)
      = [0 \<mapsto> []] ++ map_of (rev pairs)"
    using dec by (simp add: setLinks_links_def outLinksOf_truncate)
  have "inLinks (setLinks_start noLinks) t = None"
    by (simp add: setLinks_start_def noLinks_def)
  then have "inLinks (setLinks_links (encodeLinks pairs) noLinks) t
      = pushAll None (map Some (sourcesOfEdgesInto pairs t))"
    using dec by (simp add: setLinks_links_def inLinks_truncate)
  then show "inLinks (setLinks_links (encodeLinks pairs) noLinks) t
      = (if sourcesOfEdgesInto pairs t = [] then None
         else Some (map Some (sourcesOfEdgesInto pairs t)))"
    by (cases "sourcesOfEdgesInto pairs t") simp_all
qed

section \<open>Properties of the chain of promises\<close>

lemmas chain_defs = loadGraph_def then_promise_def loadManifest_def loadPositions_def
  loadLinks_def loadLabels_def convertToGraph_def request_def setManifest_def setPositions_def
  setLinks_def setLabels_def start_def

lemmas url_defs = manifestUrl_def endpoint_def manifestLoaded_def positionsLoaded_def
  linksLoaded_def outcome_def actions_def uptoManifest_def uptoPositions_def uptoLinks_def
  uptoLabels_def

lemmas example_defs = exampleModules_def exampleManifest_def url_defs toString_def version_def
  getFromAppConfig_def truthy_def Int32Array_def

text \<open>A rejected promise skips the function given to \<open>then\<close> and keeps its error.\<close>

lemma then_promise_rejected:
  "fst (p s) = Inl e \<Longrightarrow> then_promise p f s = (Inl e, snd (p s))"
  by (cases "p s") (simp add: then_promise_def)

lemma fail_manifest_fetch:
  "requestManifest env (manifestUrl env name) = Inl e \<Longrightarrow>
   outcome env name = Inl e \<and> actions env name = uptoManifest env name"
  by (simp add: chain_defs url_defs)

lemma fail_manifest_null:
  "requestManifest env (manifestUrl env name) = Inr None \<Longrightarrow>
   outcome env name = Inl TypeError \<and> actions env name = uptoManifest env name"
  by (simp add: chain_defs url_defs)

lemma fail_positions_fetch:
  "manifestLoaded env name m \<Longrightarrow>
   requestBuffer env (endpoint env name m @ ''/positions.bin'') = Inl e \<Longrightarrow>
   outcome env name = Inl e \<and> actions env name = uptoPositions env name m"
  by (simp add: chain_defs url_defs)

lemma fail_positions_decode:
  "manifestLoaded env name m \<Longrightarrow>
   requestBuffer env (endpoint env name m @ ''/positions.bin'') = Inr buffer \<Longrightarrow>
   Int32Array buffer = Inl e \<Longrightarrow>
   outcome env name = Inl e \<and> actions env name = uptoPositions env name m"
  by (simp add: chain_defs url_defs)

lemma fail_links_fetch:
  "positionsLoaded env name m \<Longrightarrow>
   requestBuffer env (endpoint env name m @ ''/links.bin'') = Inl e \<Longrightarrow>
   outcome env name = Inl e \<and> actions env name = uptoLinks env name m"
  by (auto simp: chain_defs url_defs Int32Array_def split: sum.splits)

lemma fail_links_decode:
  "positionsLoaded env name m \<Longrightarrow>
   requestBuffer env (endpoint env name m @ ''/links.bin'') = Inr buffer \<Longrightarrow>
   Int32Array buffer = Inl e \<Longrightarrow>
   outcome env name = Inl e \<and> actions env name = uptoLinks env name m"
  by (auto simp: chain_defs url_defs Int32Array_def split: sum.splits if_splits)

lemma fail_labels_fetch:
  "linksLoaded env name m \<Longrightarrow>
   requestLabels env (endpoint env name m @ ''/labels.json'') = Inl e \<Longrightarrow>
   outcome env name = Inl e \<and> actions env name = uptoLabels env name m"
  by (auto simp: chain_defs url_defs Int32Array_def split: sum.splits if_splits)

text \<open>When every step succeeds, the chain ends with the graph made from the decoded data.\<close>

lemma load_succeeds:
  assumes "manifestLoaded env name m"
    and "requestBuffer env (endpoint env name m @ ''/positions.bin'') = Inr pbuffer"
    and "Int32Array pbuffer = Inr pview"
    and "requestBuffer env (endpoint env name m @ ''/links.bin'') = Inr lbuffer"
    and "Int32Array lbuffer = Inr lview"
    and "requestLabels env (endpoint env name m @ ''/labels.json'') = Inr names"
  shows "outcome env name =
      Inr (createGraph env (Some (map (timesScaleFactor env) pview))
        (Some names) (setLinks_links lview noLinks)) \<and>
    actions env name = uptoLabels env name m @ [Fire LabelsDownloaded]"
  using assms by (simp add: chain_defs url_defs)

section \<open>The claims about the link decoder\<close>

text \<open>
  C1, as the code has it. Let a stream be built from a sequence of pairs of a source and
  its targets (sources in any order, identifiers that fit in 32 bits) by encoding every
  pair as \<open>-(source + 1)\<close> followed by \<open>target + 1\<close> for each target. Decoding the stream
  gives \<open>outLinks\<close> in which every listed source maps to exactly the targets of the last
  pair that lists it, in their order; so when no source is listed twice, every listed source
  maps to exactly its original targets. For every node \<open>t\<close>, \<open>inLinks[t]\<close> is the list of
  the sources of the edges into \<open>t\<close> in the order the stream has them, and is missing when
  there is no such edge.
\<close>

theorem link_round_trip:
  assumes "nodeIds pairs"
  shows "(map_of (rev pairs) s = Some ts \<longrightarrow>
            outLinksOf (setLinks_links (encodeLinks pairs) noLinks) s = Some ts) \<and>
         (distinct (map fst pairs) \<and> (s', ts') \<in> set pairs \<longrightarrow>
            outLinksOf (setLinks_links (encodeLinks pairs) noLinks) s' = Some ts') \<and>
         inLinks (setLinks_links (encodeLinks pairs) noLinks) t
           = (if sourcesOfEdgesInto pairs t = [] then None
              else Some (map Some (sourcesOfEdgesInto pairs t)))"
proof -
  have "map_of (rev pairs) s' = Some ts'" if "distinct (map fst pairs)" "(s', ts') \<in> set pairs"
    using that by (intro map_of_is_SomeI) (simp_all add: rev_map [symmetric])
  then show ?thesis
    using links_of_pairs [OF assms] by (auto simp: map_add_def)
qed

theorem link_round_trip_witness:
  "nodeIds [(1, [0, 2]), (0, [1, 1])] \<and>
   map_of (rev [(1, [0, 2]), (0, [1, 1])]) (1 :: int) = Some [0, 2 :: int] \<and>
   outLinksOf (setLinks_links (encodeLinks [(1, [0, 2]), (0, [1, 1])]) noLinks) 1 = Some [0, 2] \<and>
   distinct (map fst [((1 :: int), [0, 2 :: int]), (0, [1, 1])]) \<and>
   ((0 :: int), [1, 1 :: int]) \<in> set [(1, [0, 2]), (0, [1, 1])] \<and>
   outLinksOf (setLinks_links (encodeLinks [(1, [0, 2]), (0, [1, 1])]) noLinks) 0 = Some [1, 1] \<and>
   inLinks (setLinks_links (encodeLinks [(1, [0, 2]), (0, [1, 1])]) noLinks) 1
     = Some [Some 0, Some 0]"
  using link_round_trip [of "[(1, [0, 2]), (0, [1, 1])]" 1 "[0, 2]" 0 "[1, 1]" 1]
  by (simp add: nodeIds_def sourcesOfEdgesInto_def edges_def)

text \<open>
  C1 as stated fails for a sequence that lists a source twice: the pairs \<open>(0, [1])\<close> and
  \<open>(0, [2])\<close> are encoded as \<open>[-1, 2, -1, 3]\<close>, and the decoded \<open>outLinks[0]\<close> is \<open>[2]\<close>, not the
  targets \<open>[1]\<close> of the first pair.
\<close>

theorem link_round_trip_repeated_source:
  "nodeIds [(0, [1]), (0, [2])] \<and> ((0 :: int), [1 :: int]) \<in> set [(0, [1]), (0, [2])] \<and>
   encodeLinks [(0, [1]), (0, [2])] = [-1, 2, -1, 3] \<and>
   outLinksOf (setLinks_links (encodeLinks [(0, [1]), (0, [2])]) noLinks) 0 = Some [2] \<and>
   outLinksOf (setLinks_links (encodeLinks [(0, [1]), (0, [2])]) noLinks) 0 \<noteq> Some [1]"
  by (simp add: encode_defs decode_defs)

text \<open>
  C2, as the code has it. Decoding the stream \<open>[-1, 2, 3, -2, 1]\<close> gives exactly
  \<open>outLinks = {0: [1, 2], 1: [0]}\<close> and exactly
  \<open>inLinks = {0: [1], 1: [0], 2: [0]}\<close>: the last element is an edge from node 1 to node 0,
  so \<open>inLinks\<close> has an entry for node 0 as well.
\<close>

theorem links_example_decoded:
  "outLinksOf (setLinks_links [-1, 2, 3, -2, 1] noLinks) = [0 \<mapsto> [1, 2], 1 \<mapsto> [0]] \<and>
   inLinks (setLinks_links [-1, 2, 3, -2, 1] noLinks)
     = [0 \<mapsto> [Some 1], 1 \<mapsto> [Some 0], 2 \<mapsto> [Some 0]]"
  by (simp add: decode_defs fun_eq_iff)

text \<open>
  C2 as stated fails: it lists \<open>inLinks = {1: [0], 2: [0]}\<close> with no other entry, but the
  decoded \<open>inLinks\<close> has the entry \<open>[1]\<close> at node 0.
\<close>

theorem links_example_inLinks_zero:
  "inLinks (setLinks_links [-1, 2, 3, -2, 1] noLinks) 0 = Some [Some 1] \<and>
   [1 \<mapsto> [Some 0], 2 \<mapsto> [Some (0::int)]] (0::int) = None"
  by (simp add: decode_defs)

text \<open>
  C3, as the code has it. For every stream, a node id other than 0 that no negative element
  declares as a source has no entry in \<open>outLinks\<close>, and a node id that is the decremented
  value of no non-negative element has no entry in \<open>inLinks\<close>. (Node 0 always has an entry
  in \<open>outLinks\<close>, see C9.)
\<close>

theorem sparse_nodes:
  "(s \<noteq> 0 \<and> s \<notin> set (declared links) \<longrightarrow> outLinksOf (setLinks_links links noLinks) s = None) \<and>
   (t \<notin> set (targets links) \<longrightarrow> inLinks (setLinks_links links noLinks) t = None)"
  using dom_outLinksOf_links [of links] dom_inLinks_links [of links] by blast

theorem sparse_nodes_witness:
  "(1::int) \<noteq> 0 \<and> 1 \<notin> set (declared [-1, 2]) \<and>
   outLinksOf (setLinks_links [-1, 2] noLinks) 1 = None \<and>
   0 \<notin> set (targets [-1, 2]) \<and> inLinks (setLinks_links [-1, 2] noLinks) 0 = None"
  using sparse_nodes [of 1 "[-1, 2]" 0] by (simp add: declared_def targets_def)

text \<open>
  C3 as stated fails for node 0: the stream \<open>[-2, 1]\<close> declares node 1 only, and the decoded
  \<open>outLinks\<close> still has an (empty) entry for node 0, written by line 111.
\<close>

theorem sparse_nodes_node_zero:
  "0 \<notin> set (declared [-2, 1]) \<and> outLinksOf (setLinks_links [-2, 1] noLinks) 0 = Some []"
  by (simp add: declared_def decode_defs)

text \<open>
  C4, as the code has it. The decoder reports no error for a zero element or for a stream
  that begins with a non-negative element: whenever the buffer has a view as an
  \<open>Int32Array\<close>, \<open>setLinks\<close> is fulfilled and stores the decoded data. A stream with a zero
  element gives \<open>inLinks\<close> an entry at index \<open>-1\<close>, and a stream that begins with a
  non-negative element \<open>v\<close> records \<open>undefined\<close> as the first source in \<open>inLinks[v - 1]\<close>.
\<close>

theorem malformed_streams_accepted:
  "(Int32Array buffer = Inr view \<longrightarrow>
      setLinks buffer st =
        (Inr (), st\<lparr>linkData := setLinks_links view (linkData st),
                   trace := trace st @ [Fire LinksDownloaded]\<rparr>)) \<and>
   (0 \<in> set links \<longrightarrow> inLinks (setLinks_links links noLinks) (- 1) \<noteq> None) \<and>
   (\<not> sint v < 0 \<longrightarrow>
      (\<exists>srcs. inLinks (setLinks_links (v # rest) noLinks) (sint v - 1) = Some (None # srcs)))"
proof -
  have "- 1 \<in> dom (inLinks (setLinks_links links noLinks))" if "0 \<in> set links"
  proof -
    have "- 1 \<in> set (targets links)"
      using that by (auto simp: targets_def intro!: image_eqI [where x = 0])
    then show ?thesis by (simp add: dom_inLinks_links)
  qed
  moreover have
    "\<exists>srcs. inLinks (setLinks_links (v # rest) noLinks) (sint v - 1) = Some (None # srcs)"
    if "\<not> sint v < 0"
  proof -
    have "inLinks (setLinks_body v (setLinks_start noLinks)) (sint v - 1) = Some [None]"
      using that by (simp add: inLinks_body setLinks_start_def noLinks_def)
    from inLinks_head_kept [OF this, of rest] show ?thesis
      by (simp add: setLinks_links_def inLinks_truncate)
  qed
  ultimately show ?thesis by (auto simp: setLinks_def)
qed

theorem malformed_streams_accepted_witness:
  "Int32Array [2, 0, 0, 0, 0, 0, 0, 0] = Inr [2, 0] \<and>
   setLinks [2, 0, 0, 0, 0, 0, 0, 0] (start []) =
     (Inr (), (start [])\<lparr>linkData := setLinks_links [2, 0] (linkData (start [])),
                        trace := trace (start []) @ [Fire LinksDownloaded]\<rparr>) \<and>
   0 \<in> set [2, 0 :: int32] \<and> inLinks (setLinks_links [2, 0] noLinks) (- 1) \<noteq> None \<and>
   \<not> sint (2 :: int32) < 0 \<and>
   (\<exists>srcs. inLinks (setLinks_links (2 # [0]) noLinks) (sint (2 :: int32) - 1)
      = Some (None # srcs))"
  using malformed_streams_accepted [of "[2, 0, 0, 0, 0, 0, 0, 0]" "[2, 0]" "start []" "[2, 0]" 2 "[0]"]
  by (simp add: Int32Array_def int32_of_bytes_def)

text \<open>
  C4 as stated fails: the buffer that holds the single element 0 (a zero element, and a
  stream that begins with a non-negative element) is decoded without an error; \<open>-1\<close> is
  pushed on \<open>outLinks[0]\<close> and \<open>undefined\<close> is stored in \<open>inLinks[-1]\<close>.
\<close>

theorem zero_token_accepted:
  "Int32Array [0, 0, 0, 0] = Inr [0] \<and>
   fst (setLinks [0, 0, 0, 0] (start [])) = Inr () \<and>
   outLinksOf (linkData (snd (setLinks [0, 0, 0, 0] (start [])))) 0 = Some [- 1] \<and>
   inLinks (linkData (snd (setLinks [0, 0, 0, 0] (start [])))) (- 1) = Some [None]"
  by (simp add: Int32Array_def int32_of_bytes_def setLinks_def start_def decode_defs)

text \<open>
  C7, as the code has it. For every stream, the number of entries in the lists of the
  decoded \<open>outLinks\<close> is at most the number of non-negative elements, and the number of
  sources that have a list in \<open>outLinks\<close> is at most the number of negative elements plus one.
  For every stream that begins with a negative element and declares every source at most
  once, the number of entries in the lists of \<open>outLinks\<close> equals the number of non-negative
  elements, and the number of sources that have a list equals the number of negative
  elements, plus one for node 0 when the stream does not declare it.
\<close>

theorem outLinks_counts:
  "entries (setLinks_links links noLinks) \<le> length (filter (\<lambda>v. \<not> sint v < 0) links) \<and>
   card (dom (outLinksOf (setLinks_links links noLinks)))
     \<le> length (filter (\<lambda>v. sint v < 0) links) + 1 \<and>
   (links \<noteq> [] \<and> sint (hd links) < 0 \<and> distinct (declared links) \<longrightarrow>
      entries (setLinks_links links noLinks) = length (filter (\<lambda>v. \<not> sint v < 0) links) \<and>
      card (dom (outLinksOf (setLinks_links links noLinks)))
        = length (filter (\<lambda>v. sint v < 0) links)
          + (if 0 \<in> set (declared links) then 0 else 1))"
  using entries_le [of links] entries_eq [of links] card_dom_le [of links] card_dom_eq [of links]
  by (simp add: targets_def declared_def)

theorem outLinks_counts_witness:
  "[-2, 1, 3, -1, 2 :: int32] \<noteq> [] \<and> sint (hd [-2, 1, 3, -1, 2 :: int32]) < 0 \<and>
   distinct (declared [-2, 1, 3, -1, 2]) \<and>
   entries (setLinks_links [-2, 1, 3, -1, 2] noLinks) = 3 \<and>
   card (dom (outLinksOf (setLinks_links [-2, 1, 3, -1, 2] noLinks))) = 2"
  using outLinks_counts [of "[-2, 1, 3, -1, 2]"] by (simp add: declared_def)

text \<open>
  C7 as stated fails. In the stream \<open>[-1, 2, -1]\<close> the second declaration of node 0 replaces
  the list that holds the target: the decoded \<open>outLinks\<close> is \<open>{0: []}\<close>, no entry for one
  non-negative element and one source for two negative elements. In the stream \<open>[3, -1]\<close>
  the target is pushed on the initial list of node 0, which the declaration replaces.
\<close>

theorem outLinks_counts_replaced_list:
  "outLinksOf (setLinks_links [-1, 2, -1] noLinks) = [0 \<mapsto> []] \<and>
   entries (setLinks_links [-1, 2, -1] noLinks) = 0 \<and>
   length (filter (\<lambda>v. \<not> sint v < 0) [-1, 2, -1 :: int32]) = 1 \<and>
   card (dom (outLinksOf (setLinks_links [-1, 2, -1] noLinks))) = 1 \<and>
   length (filter (\<lambda>v. sint v < 0) [-1, 2, -1 :: int32]) = 2 \<and>
   outLinksOf (setLinks_links [3, -1] noLinks) = [0 \<mapsto> []] \<and>
   entries (setLinks_links [3, -1] noLinks) = 0 \<and>
   length (filter (\<lambda>v. \<not> sint v < 0) [3, -1 :: int32]) = 1"
proof -
  have a: "outLinksOf (setLinks_links [-1, 2, -1] noLinks) = [0 \<mapsto> []]"
    by (simp add: decode_defs fun_eq_iff)
  have b: "outLinksOf (setLinks_links [3, -1] noLinks) = [0 \<mapsto> []]"
    by (simp add: decode_defs fun_eq_iff)
  show ?thesis
    by (simp add: a b entries_def targetsOf_def)
qed

text \<open>
  C9. For every stream the decoded \<open>outLinks\<close> has an entry at index 0. Decoding the empty
  stream gives \<open>outLinks\<close> with exactly one entry, the empty array at node 0, and an empty
  \<open>inLinks\<close>.
\<close>

theorem outLinks_zero_entry:
  "(\<exists>ts. outLinksOf (setLinks_links links noLinks) 0 = Some ts) \<and>
   outLinksOf (setLinks_links [] noLinks) = [0 \<mapsto> []] \<and>
   inLinks (setLinks_links [] noLinks) = Map.empty"
proof -
  have "0 \<in> dom (outLinksOf (setLinks_links links noLinks))"
    by (simp add: dom_outLinksOf_links)
  moreover have "outLinksOf (setLinks_links [] noLinks) = [0 \<mapsto> []]"
    by (simp add: decode_defs fun_eq_iff)
  moreover have "inLinks (setLinks_links [] noLinks) = Map.empty"
    by (simp add: decode_defs)
  ultimately show ?thesis by blast
qed

text \<open>
  C10. A negative element that declares a source again resets \<open>outLinks\<close> of that source to
  the empty array, whatever targets it had, and leaves \<open>inLinks\<close> as it was. For every stream
  that begins with a negative element, has no zero element and declares every source at
  most once, node \<open>t\<close> occurs in \<open>outLinks[s]\<close> exactly as often as \<open>s\<close> occurs in
  \<open>inLinks[t]\<close>. For the stream \<open>[-1, 2, -1]\<close>, which declares node 0 twice, this fails.
\<close>

theorem redeclaration_resets_source:
  "(sint v < 0 \<longrightarrow>
      outLinksOf (setLinks_links (before @ [v]) noLinks) (- sint v - 1) = Some [] \<and>
      inLinks (setLinks_links (before @ [v]) noLinks) = inLinks (setLinks_links before noLinks)) \<and>
   (links \<noteq> [] \<and> sint (hd links) < 0 \<and> 0 \<notin> set links \<and> distinct (declared links) \<longrightarrow>
      occursOut (setLinks_links links noLinks) s t = occursIn (setLinks_links links noLinks) s t) \<and>
   occursOut (setLinks_links [-1, 2, -1] noLinks) 0 1
     \<noteq> occursIn (setLinks_links [-1, 2, -1] noLinks) 0 1"
proof -
  have "occursOut (setLinks_links [-1, 2, -1] noLinks) 0 1 = 0"
    by (simp add: occurs_defs decode_defs)
  moreover have "occursIn (setLinks_links [-1, 2, -1] noLinks) 0 1 = 1"
    by (simp add: occurs_defs decode_defs)
  ultimately show ?thesis
    using redeclare [of v "before"] consistent_links [of links s t] by simp
qed

theorem redeclaration_resets_source_witness:
  "sint (-1 :: int32) < 0 \<and>
   outLinksOf (setLinks_links ([-1, 2] @ [-1]) noLinks) (- sint (-1 :: int32) - 1) = Some [] \<and>
   inLinks (setLinks_links ([-1, 2] @ [-1]) noLinks) = inLinks (setLinks_links [-1, 2] noLinks) \<and>
   [-1, 2, 3, -2, 1 :: int32] \<noteq> [] \<and> sint (hd [-1, 2, 3, -2, 1 :: int32]) < 0 \<and>
   0 \<notin> set [-1, 2, 3, -2, 1 :: int32] \<and> distinct (declared [-1, 2, 3, -2, 1]) \<and>
   occursOut (setLinks_links [-1, 2, 3, -2, 1] noLinks) 0 1
     = occursIn (setLinks_links [-1, 2, 3, -2, 1] noLinks) 0 1"
  using redeclaration_resets_source [of "-1" "[-1, 2]" "[-1, 2, 3, -2, 1]" 0 1]
  by (simp add: declared_def)

section \<open>The claims about versions, positions and the chain of promises\<close>

text \<open>
  C5, as the code has it. For every manifest \<open>M\<close> and every present pinned version \<open>p\<close>, the
  resolved version is \<open>p\<close> when \<open>p\<close> is not the empty string and is a member of the approved
  versions of \<open>M\<close>, and the last version of \<open>M\<close> otherwise; so it equals \<open>p\<close> exactly when
  \<open>p\<close> is a non-empty member of the approved versions or \<open>p\<close> is the last version. When the
  pinned version is absent, or the manifest has no approved versions, the result is the
  last version.
\<close>

theorem version_resolution:
  "version (Some p) m =
     (if p \<noteq> [] \<and> (\<exists>vs. manifest_all m = Some vs \<and> p \<in> set vs) then Some p
      else manifest_last m) \<and>
   (version (Some p) m = Some p \<longleftrightarrow>
      p \<noteq> [] \<and> (\<exists>vs. manifest_all m = Some vs \<and> p \<in> set vs) \<or> manifest_last m = Some p) \<and>
   version None m = manifest_last m \<and>
   (manifest_all m = None \<longrightarrow> version pinned m = manifest_last m)"
  by (auto simp: version_def getFromAppConfig_def truthy_def split: option.splits)

theorem version_resolution_witness:
  "version (Some ''v1'') \<lparr>manifest_last = Some ''v2'', manifest_all = Some [''v1'', ''v2'']\<rparr>
     = Some ''v1'' \<and>
   manifest_all \<lparr>manifest_last = Some ''v2'', manifest_all = None\<rparr> = None \<and>
   version (Some ''v1'') \<lparr>manifest_last = Some ''v2'', manifest_all = None\<rparr> = Some ''v2''"
  using
    version_resolution [of "''v1''"
      "\<lparr>manifest_last = Some ''v2'', manifest_all = Some [''v1'', ''v2'']\<rparr>" None]
    version_resolution [of "''v1''" "\<lparr>manifest_last = Some ''v2'', manifest_all = None\<rparr>"
      "Some ''v1''"]
  by simp

text \<open>
  C5 as stated fails twice. The empty string is a present pinned version and may be a member
  of the approved versions, yet line 77 treats it as absent and the last version is chosen.
  And a pinned version that is not approved but is the last version is the resolved
  version, so the resolved version is the pinned one without the pinned one being approved.
\<close>

theorem version_resolution_empty_or_last:
  "[] \<in> set [[]] \<and>
   version (Some []) \<lparr>manifest_last = Some ''v2'', manifest_all = Some [[]]\<rparr> = Some ''v2'' \<and>
   ''v1'' \<notin> set [''v2''] \<and>
   version (Some ''v1'') \<lparr>manifest_last = Some ''v1'', manifest_all = Some [''v2'']\<rparr>
     = Some ''v1''"
  by (simp add: version_def getFromAppConfig_def truthy_def)

text \<open>
  C6, as the code has it. The position decoder does not look at the number of integers in
  the buffer: for every buffer that holds 32-bit integers, whatever their number, it is
  fulfilled and stores, in the order of the buffer, the value that multiplying each integer
  by the scale factor leaves in the \<open>Int32Array\<close>, so exactly as many values as the buffer
  has integers. For an integer scale factor \<open>k\<close> of magnitude at most \<open>2 ^ 21\<close> the stored
  value of an integer \<open>p\<close> is the low 32 bits of the product \<open>p * k\<close>. The only failure of
  the decoder is the \<open>RangeError\<close> of \<open>new Int32Array\<close> for a byte length that is not a
  multiple of 4.
\<close>

theorem positions_of_any_length:
  "(Int32Array buffer = Inr view \<longrightarrow>
      fst (setPositions scale buffer st) = Inr () \<and>
      positions (snd (setPositions scale buffer st)) = Some (map scale view) \<and>
      (\<exists>ps. positions (snd (setPositions scale buffer st)) = Some ps \<and>
         length ps = length view)) \<and>
   (\<bar>k\<bar> \<le> 2097152 \<and> Int32Array buffer = Inr view \<longrightarrow>
      positions (snd (setPositions (integerFactor k) buffer st))
        = Some (map (\<lambda>p. word_of_int (sint p * k)) view)) \<and>
   (fst (setPositions scale buffer st) = Inl e \<longrightarrow> e = RangeError \<and> length buffer mod 4 \<noteq> 0)"
  by (auto simp: setPositions_def Int32Array_def integerFactor_def split: if_splits)

theorem positions_of_any_length_witness:
  "Int32Array [1, 0, 0, 0, 5, 0, 0, 0] = Inr [1, 5] \<and>
   fst (setPositions (integerFactor 3) [1, 0, 0, 0, 5, 0, 0, 0] (start [])) = Inr () \<and>
   positions (snd (setPositions (integerFactor 3) [1, 0, 0, 0, 5, 0, 0, 0] (start [])))
     = Some [3, 15] \<and>
   \<bar>3 :: int\<bar> \<le> 2097152 \<and>
   fst (setPositions (integerFactor 3) [1, 0, 0] (start [])) = Inl RangeError \<and>
   length [1, 0, 0 :: byte] mod 4 \<noteq> 0"
  using
    positions_of_any_length [of "[1, 0, 0, 0, 5, 0, 0, 0]" "[1, 5]" "integerFactor 3"
      "start []" 3 RangeError]
    positions_of_any_length [of "[1, 0, 0]" "[]" "integerFactor 3" "start []" 3 RangeError]
  by (simp add: Int32Array_def int32_of_bytes_def setPositions_def)

text \<open>
  C6 as stated fails: a buffer of two integers, a number that is not a multiple of 3, is
  decoded into two positions without an error (scale factor 1).
\<close>

theorem positions_two_integers:
  "Int32Array [1, 0, 0, 0, 2, 0, 0, 0] = Inr [1, 2] \<and> length [1, 2 :: int32] mod 3 \<noteq> 0 \<and>
   fst (setPositions (integerFactor 1) [1, 0, 0, 0, 2, 0, 0, 0] (start [])) = Inr () \<and>
   positions (snd (setPositions (integerFactor 1) [1, 0, 0, 0, 2, 0, 0, 0] (start [])))
     = Some [1, 2]"
  by (simp add: Int32Array_def int32_of_bytes_def setPositions_def start_def integerFactor_def)

text \<open>
  C8. In every run in which a fetch or a decoding step fails, no later step is started,
  the load fails with the error of that step and no graph is produced. The seven steps
  that can fail are the four requests, \<open>setManifest\<close> on a \<open>null\<close> manifest, and the views of
  positions.bin and links.bin. In each case the result of the run is the error of the
  failing step and the actions of the run end with the request that failed or whose
  response could not be decoded. In particular, when the request of links.bin fails, the
  run ends with that request: labels.json is never requested.
\<close>

theorem failure_stops_the_chain:
  "(requestManifest env (manifestUrl env name) = Inl e \<longrightarrow>
      outcome env name = Inl e \<and> actions env name = uptoManifest env name) \<and>
   (requestManifest env (manifestUrl env name) = Inr None \<longrightarrow>
      outcome env name = Inl TypeError \<and> actions env name = uptoManifest env name) \<and>
   (manifestLoaded env name m \<and>
    requestBuffer env (endpoint env name m @ ''/positions.bin'') = Inl e \<longrightarrow>
      outcome env name = Inl e \<and> actions env name = uptoPositions env name m) \<and>
   (manifestLoaded env name m \<and>
    requestBuffer env (endpoint env name m @ ''/positions.bin'') = Inr buffer \<and>
    Int32Array buffer = Inl e \<longrightarrow>
      outcome env name = Inl e \<and> actions env name = uptoPositions env name m) \<and>
   (positionsLoaded env name m \<and>
    requestBuffer env (endpoint env name m @ ''/links.bin'') = Inl e \<longrightarrow>
      outcome env name = Inl e \<and> actions env name = uptoLinks env name m) \<and>
   (positionsLoaded env name m \<and>
    requestBuffer env (endpoint env name m @ ''/links.bin'') = Inr buffer \<and>
    Int32Array buffer = Inl e \<longrightarrow>
      outcome env name = Inl e \<and> actions env name = uptoLinks env name m) \<and>
   (linksLoaded env name m \<and>
    requestLabels env (endpoint env name m @ ''/labels.json'') = Inl e \<longrightarrow>
      outcome env name = Inl e \<and> actions env name = uptoLabels env name m)"
  using fail_manifest_fetch [of env name e] fail_manifest_null [of env name]
    fail_positions_fetch [of env name m e] fail_positions_decode [of env name m buffer e]
    fail_links_fetch [of env name m e] fail_links_decode [of env name m buffer e]
    fail_labels_fetch [of env name m e]
  by blast

text \<open>
  The seven failures on the example server, for the graph \<open>g\<close>: each request in turn is
  rejected, the manifest is \<open>null\<close>, positions.bin has three bytes, links.bin has one byte.
\<close>

theorem failure_stops_the_chain_witness:
  "(outcome (exampleModules (Inl (Rejected ''offline'')) (Inr []) (Inr []) (Inr [])) ''g''
      = Inl (Rejected ''offline'') \<and>
    actions (exampleModules (Inl (Rejected ''offline'')) (Inr []) (Inr []) (Inr [])) ''g''
      = [Request ''data/g/manifest.json?nocache=0'']) \<and>
   (outcome (exampleModules (Inr None) (Inr []) (Inr []) (Inr [])) ''g'' = Inl TypeError \<and>
    actions (exampleModules (Inr None) (Inr []) (Inr []) (Inr [])) ''g''
      = [Request ''data/g/manifest.json?nocache=0'']) \<and>
   (outcome (exampleModules (Inr (Some exampleManifest)) (Inl (Rejected ''404'')) (Inr [])
       (Inr [])) ''g'' = Inl (Rejected ''404'') \<and>
    actions (exampleModules (Inr (Some exampleManifest)) (Inl (Rejected ''404'')) (Inr [])
       (Inr [])) ''g''
      = [Request ''data/g/manifest.json?nocache=0'', SetManifestVersion (Some ''v1''),
         Request ''data/g/v1/positions.bin'']) \<and>
   (outcome (exampleModules (Inr (Some exampleManifest)) (Inr [1, 2, 3]) (Inr [])
       (Inr [])) ''g'' = Inl RangeError \<and>
    actions (exampleModules (Inr (Some exampleManifest)) (Inr [1, 2, 3]) (Inr [])
       (Inr [])) ''g''
      = [Request ''data/g/manifest.json?nocache=0'', SetManifestVersion (Some ''v1''),
         Request ''data/g/v1/positions.bin'']) \<and>
   (outcome (exampleModules (Inr (Some exampleManifest)) (Inr []) (Inl (Rejected ''404''))
       (Inr [])) ''g'' = Inl (Rejected ''404'') \<and>
    actions (exampleModules (Inr (Some exampleManifest)) (Inr []) (Inl (Rejected ''404''))
       (Inr [])) ''g''
      = [Request ''data/g/manifest.json?nocache=0'', SetManifestVersion (Some ''v1''),
         Request ''data/g/v1/positions.bin'', Fire PositionsDownloaded,
         Request ''data/g/v1/links.bin'']) \<and>
   (outcome (exampleModules (Inr (Some exampleManifest)) (Inr []) (Inr [1])
       (Inr [])) ''g'' = Inl RangeError \<and>
    actions (exampleModules (Inr (Some exampleManifest)) (Inr []) (Inr [1])
       (Inr [])) ''g''
      = [Request ''data/g/manifest.json?nocache=0'', SetManifestVersion (Some ''v1''),
         Request ''data/g/v1/positions.bin'', Fire PositionsDownloaded,
         Request ''data/g/v1/links.bin'']) \<and>
   (outcome (exampleModules (Inr (Some exampleManifest)) (Inr []) (Inr [])
       (Inl (Rejected ''404''))) ''g'' = Inl (Rejected ''404'') \<and>
    actions (exampleModules (Inr (Some exampleManifest)) (Inr []) (Inr [])
       (Inl (Rejected ''404''))) ''g''
      = [Request ''data/g/manifest.json?nocache=0'', SetManifestVersion (Some ''v1''),
         Request ''data/g/v1/positions.bin'', Fire PositionsDownloaded,
         Request ''data/g/v1/links.bin'', Fire LinksDownloaded,
         Request ''data/g/v1/labels.json''])"
  using
    failure_stops_the_chain [of
      "exampleModules (Inl (Rejected ''offline'')) (Inr []) (Inr []) (Inr [])" "''g''"
      "Rejected ''offline''" exampleManifest "[]"]
    failure_stops_the_chain [of
      "exampleModules (Inr None) (Inr []) (Inr []) (Inr [])" "''g''"
      TypeError exampleManifest "[]"]
    failure_stops_the_chain [of
      "exampleModules (Inr (Some exampleManifest)) (Inl (Rejected ''404'')) (Inr []) (Inr [])"
      "''g''" "Rejected ''404''" exampleManifest "[]"]
    failure_stops_the_chain [of
      "exampleModules (Inr (Some exampleManifest)) (Inr [1, 2, 3]) (Inr []) (Inr [])"
      "''g''" RangeError exampleManifest "[1, 2, 3]"]
    failure_stops_the_chain [of
      "exampleModules (Inr (Some exampleManifest)) (Inr []) (Inl (Rejected ''404'')) (Inr [])"
      "''g''" "Rejected ''404''" exampleManifest "[]"]
    failure_stops_the_chain [of
      "exampleModules (Inr (Some exampleManifest)) (Inr []) (Inr [1]) (Inr [])"
      "''g''" RangeError exampleManifest "[1]"]
    failure_stops_the_chain [of
      "exampleModules (Inr (Some exampleManifest)) (Inr []) (Inr []) (Inl (Rejected ''404''))"
      "''g''" "Rejected ''404''" exampleManifest "[]"]
  by (simp add: example_defs)

end
